theory Spec2Isabelle
  imports Complex_Main "HOL-Library.Char_ord" "HOL-Library.List_Lexorder" "HOL-Library.Multiset"
begin

section \<open>Data model of main.go\<close>

text \<open>
  Go's \<^verbatim>\<open>float32\<close>. Coordinates are only ever handed to the distance function, and a
  distance is only ever compared with a literal, so the model keeps what a comparison can
  see: a finite value, an infinity, or NaN. Every ordered comparison with NaN is false, as
  in Go.
\<close>

datatype float32 = Finite real | PosInf | NegInf | NaN

text \<open>\<^verbatim>\<open>x < c\<close> and \<^verbatim>\<open>x > c\<close> for a float32 \<open>x\<close> and a numeric literal \<open>c\<close>.\<close>

fun flt :: "float32 \<Rightarrow> real \<Rightarrow> bool" where
  "flt (Finite r) c = (r < c)"
| "flt NegInf c = True"
| "flt PosInf c = False"
| "flt NaN c = False"

fun fgt :: "float32 \<Rightarrow> real \<Rightarrow> bool" where
  "fgt (Finite r) c = (r > c)"
| "fgt PosInf c = True"
| "fgt NegInf c = False"
| "fgt NaN c = False"

text \<open>\<^verbatim>\<open>[2]float32\<close>: index 0 is the longitude, index 1 the latitude.\<close>

type_synonym LL = "float32 \<times> float32"

text \<open>
  The structs, with the fields that \<^verbatim>\<open>CountTraffic\<close> and \<^verbatim>\<open>ActiveControllers\<close> read or carry.
  \<^verbatim>\<open>Position.Name\<close> is the JSON field \<^verbatim>\<open>callsign\<close> (for example JFK_TWR).
\<close>

record Position =
  Name :: string
  Descriptor :: string
  Callsign :: string

record Controller =
  CID :: int
  Name :: string
  Callsign :: string
  Frequency :: string
  Facility :: int
  Rating :: int

record Airport =
  Name :: string
  Location :: LL

text \<open>\<^verbatim>\<open>MajorAirport\<close> embeds \<^verbatim>\<open>Airport\<close>: \<^verbatim>\<open>major.Name\<close> is \<^verbatim>\<open>major.Airport.Name\<close>.\<close>

record MajorAirport =
  Airport :: Airport
  Satellites :: "Airport list"

record FlightPlan =
  Departure :: string
  Arrival :: string

record Pilot =
  Latitude :: float32
  Longitude :: float32
  Groundspeed :: int
  FlightPlan :: FlightPlan

record VATSIMState =
  Pilots :: "Pilot list"
  Controllers :: "Controller list"

section \<open>NMDistance2LL\<close>

text \<open>
  The distance is computed in float64 from \<^verbatim>\<open>math.Sin\<close>, \<^verbatim>\<open>math.Cos\<close>, \<^verbatim>\<open>math.Sqrt\<close> and
  \<^verbatim>\<open>math.Atan2\<close> and rounded to float32. The classifier is therefore modelled over an
  arbitrary distance function \<open>nmd\<close>, and its theorems hold for every such function, the
  rounded one included. \<open>NMDistance2LL\<close> below is the formula of the source read over the
  reals (no rounding); it serves as the distance at the concrete inputs on which the
  theorems are evaluated. A coordinate that is not finite makes \<^verbatim>\<open>math.Sin\<close> or
  \<^verbatim>\<open>math.Cos\<close> return NaN, which propagates to the result.
\<close>

type_synonym distance = "LL \<Rightarrow> LL \<Rightarrow> float32"

definition rad :: "real \<Rightarrow> real" where
  "rad d = d / 180 * pi"

definition sqr :: "real \<Rightarrow> real" where
  "sqr x = x * x"

definition atan2 :: "real \<Rightarrow> real \<Rightarrow> real" where
  "atan2 y x =
     (if x > 0 then arctan (y / x)
      else if x < 0 then (if y \<ge> 0 then arctan (y / x) + pi else arctan (y / x) - pi)
      else if y > 0 then pi / 2
      else if y < 0 then - (pi / 2)
      else 0)"

definition haversine_nm :: "real \<Rightarrow> real \<Rightarrow> real \<Rightarrow> real \<Rightarrow> real" where
  "haversine_nm a0 a1 b0 b1 =
     (let lat1 = rad a1; lon1 = rad a0;
          lat2 = rad b1; lon2 = rad b0;
          dlat = lat2 - lat1; dlon = lon2 - lon1;
          x = sqr (sin (dlat / 2)) + cos lat1 * cos lat2 * sqr (sin (dlon / 2));
          c = 2 * atan2 (sqrt x) (sqrt (1 - x));
          dm = 6371000 * c
      in dm * 0.000539957)"

fun NMDistance2LL :: distance where
  "NMDistance2LL (Finite a0, Finite a1) (Finite b0, Finite b1) = Finite (haversine_nm a0 a1 b0 b1)"
| "NMDistance2LL _ _ = NaN"

definition DistanceTo :: "distance \<Rightarrow> Airport \<Rightarrow> LL \<Rightarrow> float32" where
  "DistanceTo nmd a p = nmd (Location a) p"

section \<open>CountTraffic\<close>

text \<open>
  \<^verbatim>\<open>map[string]int\<close>: reading a missing key gives 0. The counters start at 0 and grow by at
  most one per aircraft and direction (\<open>pilots_loop_count_bounds\<close> below), so the 64-bit
  \<^verbatim>\<open>int\<close> of the source never wraps and is modelled by \<open>int\<close>.
\<close>

type_synonym counts = "string \<rightharpoonup> int"

definition get0 :: "counts \<Rightarrow> string \<Rightarrow> int" where
  "get0 m k = (case m k of None \<Rightarrow> 0 | Some v \<Rightarrow> v)"

text \<open>\<^verbatim>\<open>m[k] = m[k] + 1\<close>\<close>

definition incr :: "counts \<Rightarrow> string \<Rightarrow> counts" where
  "incr m k = m(k \<mapsto> get0 m k + 1)"

record Tally =
  dep :: counts
  arr :: counts
  count :: int

text \<open>The two statements \<^verbatim>\<open>dep[major.Name] = dep[major.Name] + 1; count++\<close> and their \<^verbatim>\<open>arr\<close> twin.\<close>

definition count_dep :: "Tally \<Rightarrow> string \<Rightarrow> Tally" where
  "count_dep t k = t\<lparr>dep := incr (dep t) k, count := count t + 1\<rparr>"

definition count_arr :: "Tally \<Rightarrow> string \<Rightarrow> Tally" where
  "count_arr t k = t\<lparr>arr := incr (arr t) k, count := count t + 1\<rparr>"

text \<open>The closure \<^verbatim>\<open>major\<close>: the inner loop over the satellites, then the loop over the majors.\<close>

fun sat_named :: "Airport list \<Rightarrow> string \<Rightarrow> bool" where
  "sat_named [] ap = False"
| "sat_named (sat # sats) ap = (if Airport.Name sat = ap then True else sat_named sats ap)"

fun major :: "MajorAirport list \<Rightarrow> string \<Rightarrow> Airport option" where
  "major [] ap = None"
| "major (m # ms) ap =
     (if Airport.Name (Airport m) = ap then Some (Airport m)
      else if sat_named (Satellites m) ap then Some (Airport m)
      else major ms ap)"

text \<open>
  The labelled loop of the fallback path. \<open>sat_near\<close> is the inner loop: whether it reaches
  its \<^verbatim>\<open>break loop\<close>. Both exits count for the major of the current iteration and leave the
  outer loop.
\<close>

fun sat_near :: "distance \<Rightarrow> Airport list \<Rightarrow> LL \<Rightarrow> bool" where
  "sat_near nmd [] pilotLoc = False"
| "sat_near nmd (sat # sats) pilotLoc =
     (if flt (DistanceTo nmd sat pilotLoc) 3 then True else sat_near nmd sats pilotLoc)"

fun ground_loop :: "distance \<Rightarrow> MajorAirport list \<Rightarrow> LL \<Rightarrow> Tally \<Rightarrow> Tally" where
  "ground_loop nmd [] pilotLoc t = t"
| "ground_loop nmd (m # ms) pilotLoc t =
     (if flt (DistanceTo nmd (Airport m) pilotLoc) 3 then count_dep t (Airport.Name (Airport m))
      else if sat_near nmd (Satellites m) pilotLoc then count_dep t (Airport.Name (Airport m))
      else ground_loop nmd ms pilotLoc t)"

text \<open>The \<^verbatim>\<open>else if\<close> branch of the departure statement.\<close>

definition ground_stmt :: "distance \<Rightarrow> MajorAirport list \<Rightarrow> Pilot \<Rightarrow> LL \<Rightarrow> Tally \<Rightarrow> Tally" where
  "ground_stmt nmd airports pilot pilotLoc t =
     (if Groundspeed pilot < 20 \<and> Departure (FlightPlan pilot) = ''''
      then ground_loop nmd airports pilotLoc t
      else t)"

text \<open>The departure statement: flight-plan path first, fallback path in its \<^verbatim>\<open>else\<close>.\<close>

definition departure_stmt :: "distance \<Rightarrow> MajorAirport list \<Rightarrow> Pilot \<Rightarrow> LL \<Rightarrow> Tally \<Rightarrow> Tally" where
  "departure_stmt nmd airports pilot pilotLoc t =
     (case major airports (Departure (FlightPlan pilot)) of
        Some m \<Rightarrow>
          if flt (DistanceTo nmd m pilotLoc) 30 then count_dep t (Airport.Name m)
          else ground_stmt nmd airports pilot pilotLoc t
      | None \<Rightarrow> ground_stmt nmd airports pilot pilotLoc t)"

text \<open>The arrival statement.\<close>

definition arrival_stmt :: "distance \<Rightarrow> MajorAirport list \<Rightarrow> Pilot \<Rightarrow> LL \<Rightarrow> Tally \<Rightarrow> Tally" where
  "arrival_stmt nmd airports pilot pilotLoc t =
     (case major airports (Arrival (FlightPlan pilot)) of
        Some m \<Rightarrow>
          if flt (DistanceTo nmd m pilotLoc) 300 \<and> Groundspeed pilot > 20
          then count_arr t (Airport.Name m)
          else t
      | None \<Rightarrow> t)"

text \<open>
  One iteration of the loop over \<^verbatim>\<open>state.Pilots\<close>. \<^verbatim>\<open>airports[0]\<close> panics with an index out
  of range when the registry is empty; \<^verbatim>\<open>continue\<close> leaves the tally as it is.
\<close>

datatype panic = IndexOutOfRange

definition pilot_body :: "distance \<Rightarrow> MajorAirport list \<Rightarrow> Pilot \<Rightarrow> Tally \<Rightarrow> panic + Tally" where
  "pilot_body nmd airports pilot t =
     (let pilotLoc = (Longitude pilot, Latitude pilot) in
      case airports of
        [] \<Rightarrow> Inl IndexOutOfRange
      | a0 # _ \<Rightarrow>
          if fgt (DistanceTo nmd (Airport a0) pilotLoc) 500 then Inr t
          else Inr (arrival_stmt nmd airports pilot pilotLoc
                      (departure_stmt nmd airports pilot pilotLoc t)))"

fun pilots_loop :: "distance \<Rightarrow> MajorAirport list \<Rightarrow> Pilot list \<Rightarrow> Tally \<Rightarrow> panic + Tally" where
  "pilots_loop nmd airports [] t = Inr t"
| "pilots_loop nmd airports (pilot # pilots) t =
     (case pilot_body nmd airports pilot t of
        Inl e \<Rightarrow> Inl e
      | Inr t' \<Rightarrow> pilots_loop nmd airports pilots t')"

definition CountTraffic ::
  "distance \<Rightarrow> VATSIMState \<Rightarrow> MajorAirport list \<Rightarrow> panic + (counts \<times> counts \<times> int)" where
  "CountTraffic nmd state airports =
     (case pilots_loop nmd airports (Pilots state) \<lparr>dep = Map.empty, arr = Map.empty, count = 0\<rparr> of
        Inl e \<Rightarrow> Inl e
      | Inr t \<Rightarrow> Inr (dep t, arr t, count t))"

section \<open>ActiveControllers\<close>

text \<open>
  \<^verbatim>\<open>strings.Compare\<close>: byte-wise lexicographic comparison. On \<open>string\<close> the order \<open><\<close> is the
  lexicographic order of the byte values.
\<close>

definition strings_Compare :: "string \<Rightarrow> string \<Rightarrow> int" where
  "strings_Compare a b = (if a = b then 0 else if a < b then - 1 else 1)"

text \<open>
  \<^verbatim>\<open>slices.SortFunc\<close> belongs to Go's standard library. It is modelled by the insertion sort
  that the library runs on a short slice: each element moves left while it compares below
  its left neighbour. \<open>sift\<close> works on the reversed sorted prefix, so that the neighbour is
  the head of the list. For a longer slice the library's sort is not stable; the theorems
  below state only what every sort gives, an ordered rearrangement.
\<close>

fun sift :: "('a \<Rightarrow> 'a \<Rightarrow> int) \<Rightarrow> 'a \<Rightarrow> 'a list \<Rightarrow> 'a list" where
  "sift cmp x [] = [x]"
| "sift cmp x (y # ys) = (if cmp x y < 0 then y # sift cmp x ys else x # y # ys)"

definition SortFunc :: "'a list \<Rightarrow> ('a \<Rightarrow> 'a \<Rightarrow> int) \<Rightarrow> 'a list" where
  "SortFunc xs cmp = rev (foldl (\<lambda>placed x. sift cmp x placed) [] xs)"

text \<open>\<^verbatim>\<open>slices.ContainsFunc(positions, func(p Position) bool { return p.Name == ctrl.Callsign })\<close>\<close>

fun watched :: "Position list \<Rightarrow> Controller \<Rightarrow> bool" where
  "watched [] ctrl = False"
| "watched (p # ps) ctrl = (if Position.Name p = Controller.Callsign ctrl then True else watched ps ctrl)"

fun online_loop :: "Position list \<Rightarrow> Controller list \<Rightarrow> Controller list \<Rightarrow> Controller list" where
  "online_loop positions [] online = online"
| "online_loop positions (ctrl # ctrls) online =
     (if watched positions ctrl then online_loop positions ctrls (online @ [ctrl])
      else online_loop positions ctrls online)"

definition ActiveControllers :: "VATSIMState \<Rightarrow> Position list \<Rightarrow> Controller list" where
  "ActiveControllers state positions =
     SortFunc (online_loop positions (Controllers state) [])
       (\<lambda>a b. strings_Compare (Controller.Callsign a) (Controller.Callsign b))"

section \<open>The rules in the words of the specification\<close>

text \<open>
  \<open>findMajor\<close> of the specification: the first major, in registration order, whose own
  code or one of whose satellites' codes is the given code.
\<close>

definition owning_major :: "MajorAirport list \<Rightarrow> string \<Rightarrow> MajorAirport option" where
  "owning_major airports code =
     find (\<lambda>m. Airport.Name (Airport m) = code \<or> (\<exists>sat \<in> set (Satellites m). Airport.Name sat = code))
       airports"

text \<open>
  The fallback scan of the specification: one ordered scan over the pairs of a major and a
  candidate location, the major's own location first, then its satellites in order; the
  first candidate within 3 nautical miles decides.
\<close>

definition candidates :: "MajorAirport list \<Rightarrow> (MajorAirport \<times> LL) list" where
  "candidates airports =
     concat (map (\<lambda>m. (m, Location (Airport m)) # map (\<lambda>sat. (m, Location sat)) (Satellites m)) airports)"

definition first_within_3 :: "distance \<Rightarrow> MajorAirport list \<Rightarrow> LL \<Rightarrow> (MajorAirport \<times> LL) option" where
  "first_within_3 nmd airports pilotLoc = find (\<lambda>(m, l). flt (nmd l pilotLoc) 3) (candidates airports)"

section \<open>Concrete inputs\<close>

text \<open>The registry that \<^verbatim>\<open>main\<close> passes to \<^verbatim>\<open>CountTraffic\<close>.\<close>

definition n90 :: "MajorAirport list" where
  "n90 =
     [\<lparr>Airport = \<lparr>Airport.Name = ''KJFK'', Location = (Finite (- 73.780968), Finite 40.641766)\<rparr>,
       Satellites =
         [\<lparr>Airport.Name = ''KFRG'', Location = (Finite (- 73.4134208), Finite 40.7292742)\<rparr>,
          \<lparr>Airport.Name = ''KISP'', Location = (Finite (- 73.1006651), Finite 40.7961357)\<rparr>,
          \<lparr>Airport.Name = ''KOXC'', Location = (Finite (- 73.1351825), Finite 41.4782806)\<rparr>,
          \<lparr>Airport.Name = ''KFOK'', Location = (Finite (- 72.6318119), Finite 40.8436186)\<rparr>,
          \<lparr>Airport.Name = ''KBDR'', Location = (Finite (- 73.1261758), Finite 41.1634808)\<rparr>,
          \<lparr>Airport.Name = ''KHVN'', Location = (Finite (- 72.8877292), Finite 41.2637247)\<rparr>]\<rparr>,
      \<lparr>Airport = \<lparr>Airport.Name = ''KLGA'', Location = (Finite (- 73.87261), Finite 40.77724)\<rparr>,
       Satellites =
         [\<lparr>Airport.Name = ''KDXR'', Location = (Finite (- 73.4821894), Finite 41.3715344)\<rparr>,
          \<lparr>Airport.Name = ''KHPN'', Location = (Finite (- 73.7075661), Finite 41.0669531)\<rparr>]\<rparr>,
      \<lparr>Airport = \<lparr>Airport.Name = ''KEWR'', Location = (Finite (- 74.174538), Finite 40.689491)\<rparr>,
       Satellites =
         [\<lparr>Airport.Name = ''KTEB'', Location = (Finite (- 74.0608333), Finite 40.8501111)\<rparr>,
          \<lparr>Airport.Name = ''KCDW'', Location = (Finite (- 74.2813503), Finite 40.8752247)\<rparr>,
          \<lparr>Airport.Name = ''KMMU'', Location = (Finite (- 74.4148886), Finite 40.7993383)\<rparr>]\<rparr>]"

text \<open>
  A registry on the Greenwich meridian, where the formula reduces to the arc of the
  latitude difference: KAAA at the origin, its satellites KBBB 0.01 degrees and KCCC one
  degree to the north.
\<close>

definition KAAA :: MajorAirport where
  "KAAA =
     \<lparr>Airport = \<lparr>Airport.Name = ''KAAA'', Location = (Finite 0, Finite 0)\<rparr>,
      Satellites =
        [\<lparr>Airport.Name = ''KBBB'', Location = (Finite 0, Finite 0.01)\<rparr>,
         \<lparr>Airport.Name = ''KCCC'', Location = (Finite 0, Finite 1)\<rparr>]\<rparr>"

definition no_tally :: Tally where
  "no_tally = \<lparr>dep = Map.empty, arr = Map.empty, count = 0\<rparr>"

definition pilot_at :: "real \<Rightarrow> real \<Rightarrow> int \<Rightarrow> string \<Rightarrow> string \<Rightarrow> Pilot" where
  "pilot_at lon lat gs departure arrival =
     \<lparr>Latitude = Finite lat, Longitude = Finite lon, Groundspeed = gs,
      FlightPlan = \<lparr>Departure = departure, Arrival = arrival\<rparr>\<rparr>"

definition snapshot :: "Pilot list \<Rightarrow> VATSIMState" where
  "snapshot pilots = \<lparr>Pilots = pilots, Controllers = []\<rparr>"

definition KJFK_round_trip :: Pilot where
  "KJFK_round_trip = pilot_at (- 73.780968) 40.641766 150 ''KJFK'' ''KJFK''"

definition controller :: "int \<Rightarrow> string \<Rightarrow> Controller" where
  "controller cid callsign =
     \<lparr>CID = cid, Controller.Name = '''', Callsign = callsign, Frequency = '''', Facility = 0, Rating = 0\<rparr>"

definition position :: "string \<Rightarrow> Position" where
  "position name = \<lparr>Position.Name = name, Descriptor = '''', Callsign = ''''\<rparr>"

section \<open>Counters and lookups\<close>

lemma get0_incr_same: "get0 (incr m k) k = get0 m k + 1"
  by (simp add: incr_def get0_def)

lemma get0_incr_other: "k' \<noteq> k \<Longrightarrow> get0 (incr m k) k' = get0 m k'"
  by (simp add: incr_def get0_def)

lemma incr_neq: "incr m k \<noteq> m"
proof
  assume "incr m k = m"
  then have "get0 (incr m k) k = get0 m k" by simp
  then show False by (simp add: get0_incr_same)
qed

lemma incr_inj: "incr m k = incr m k' \<Longrightarrow> k = k'"
proof (rule ccontr)
  assume e: "incr m k = incr m k'" and n: "k \<noteq> k'"
  have "get0 (incr m k) k = get0 (incr m k') k" using e by simp
  then show False using n by (simp add: get0_incr_same get0_incr_other)
qed

lemma count_dep_effect:
  "get0 (dep (count_dep t k)) k = get0 (dep t) k + 1"
  "k' \<noteq> k \<Longrightarrow> get0 (dep (count_dep t k)) k' = get0 (dep t) k'"
  "arr (count_dep t k) = arr t"
  "count (count_dep t k) = count t + 1"
  by (simp_all add: count_dep_def get0_incr_same get0_incr_other)

lemma count_arr_effect:
  "get0 (arr (count_arr t k)) k = get0 (arr t) k + 1"
  "k' \<noteq> k \<Longrightarrow> get0 (arr (count_arr t k)) k' = get0 (arr t) k'"
  "dep (count_arr t k) = dep t"
  "count (count_arr t k) = count t + 1"
  by (simp_all add: count_arr_def get0_incr_same get0_incr_other)

lemma sat_named_iff: "sat_named sats ap \<longleftrightarrow> (\<exists>sat \<in> set sats. Airport.Name sat = ap)"
  by (induction sats) auto

lemma major_owning: "major airports ap = map_option Airport (owning_major airports ap)"
  by (induction airports) (auto simp: owning_major_def sat_named_iff)

lemma sat_near_iff: "sat_near nmd sats pilotLoc \<longleftrightarrow> (\<exists>sat \<in> set sats. flt (nmd (Location sat) pilotLoc) 3)"
  by (induction sats) (auto simp: DistanceTo_def)

lemma find_sat_map:
  "find (\<lambda>(m, l). flt (nmd l pilotLoc) 3) (map (\<lambda>sat. (m0, Location sat)) sats @ rest) =
     (if sat_near nmd sats pilotLoc
      then map_option (\<lambda>sat. (m0, Location sat)) (find (\<lambda>sat. flt (nmd (Location sat) pilotLoc) 3) sats)
      else find (\<lambda>(m, l). flt (nmd l pilotLoc) 3) rest)"
  by (induction sats) (auto simp: DistanceTo_def)

lemma sat_near_find:
  "sat_near nmd sats pilotLoc \<Longrightarrow> \<exists>sat. find (\<lambda>sat. flt (nmd (Location sat) pilotLoc) 3) sats = Some sat"
  by (induction sats) (auto simp: DistanceTo_def)

lemma ground_loop_scan:
  "ground_loop nmd airports pilotLoc t =
     (case first_within_3 nmd airports pilotLoc of
        None \<Rightarrow> t
      | Some (m, l) \<Rightarrow> count_dep t (Airport.Name (Airport m)))"
proof (induction airports)
  case Nil
  then show ?case by (simp add: first_within_3_def candidates_def)
next
  case (Cons m ms)
  show ?case
  proof (cases "flt (DistanceTo nmd (Airport m) pilotLoc) 3")
    case True
    then show ?thesis by (simp add: first_within_3_def candidates_def DistanceTo_def)
  next
    case False
    note far = this
    show ?thesis
    proof (cases "sat_near nmd (Satellites m) pilotLoc")
      case True
      then obtain sat where "find (\<lambda>sat. flt (nmd (Location sat) pilotLoc) 3) (Satellites m) = Some sat"
        using sat_near_find by blast
      with True far show ?thesis
        by (simp add: first_within_3_def candidates_def DistanceTo_def find_sat_map)
    next
      case False
      with far Cons.IH show ?thesis
        by (simp add: first_within_3_def candidates_def DistanceTo_def find_sat_map)
    qed
  qed
qed

lemma sat_near_DistanceTo:
  "sat_near nmd sats pilotLoc \<longleftrightarrow> (\<exists>sat \<in> set sats. flt (DistanceTo nmd sat pilotLoc) 3)"
  by (induction sats) auto

lemma ground_loop_skip:
  assumes "\<forall>m \<in> set pre. \<not> flt (DistanceTo nmd (Airport m) pilotLoc) 3 \<and>
             (\<forall>sat \<in> set (Satellites m). \<not> flt (DistanceTo nmd sat pilotLoc) 3)"
  shows "ground_loop nmd (pre @ rest) pilotLoc t = ground_loop nmd rest pilotLoc t"
  using assms by (induction pre) (auto simp: sat_near_DistanceTo)

lemma ground_loop_hit:
  assumes "\<forall>m \<in> set pre. \<not> flt (DistanceTo nmd (Airport m) pilotLoc) 3 \<and>
             (\<forall>sat \<in> set (Satellites m). \<not> flt (DistanceTo nmd sat pilotLoc) 3)"
    and "flt (DistanceTo nmd (Airport m) pilotLoc) 3 \<or>
         (\<exists>sat \<in> set (Satellites m). flt (DistanceTo nmd sat pilotLoc) 3)"
  shows "ground_loop nmd (pre @ m # post) pilotLoc t = count_dep t (Airport.Name (Airport m))"
  using assms(2) by (auto simp: ground_loop_skip [OF assms(1)] sat_near_DistanceTo)

lemma ground_loop_miss:
  assumes "\<forall>m \<in> set airports. \<not> flt (DistanceTo nmd (Airport m) pilotLoc) 3 \<and>
             (\<forall>sat \<in> set (Satellites m). \<not> flt (DistanceTo nmd sat pilotLoc) 3)"
  shows "ground_loop nmd airports pilotLoc t = t"
  using ground_loop_skip [OF assms, of "[]" t] by simp

lemma dep_arrival_stmt: "dep (arrival_stmt nmd airports pilot loc t) = dep t"
  by (simp add: arrival_stmt_def count_arr_def split: option.splits)

lemma arr_departure_stmt: "arr (departure_stmt nmd airports pilot loc t) = arr t"
proof -
  have g: "arr (ground_loop nmd ms loc t) = arr t" for ms
    by (induction ms) (simp_all add: count_dep_def)
  show ?thesis
    by (simp add: departure_stmt_def ground_stmt_def count_dep_def g split: option.splits)
qed

lemma pilots_loop_append:
  "pilots_loop nmd airports (xs @ ys) t =
     (case pilots_loop nmd airports xs t of Inl e \<Rightarrow> Inl e | Inr t' \<Rightarrow> pilots_loop nmd airports ys t')"
  by (induction xs arbitrary: t) (auto split: sum.splits)

lemma pilots_loop_skip:
  assumes "pilot_body nmd airports pilot = Inr"
  shows "pilots_loop nmd airports (before @ pilot # after) t = pilots_loop nmd airports (before @ after) t"
  using assms by (simp add: pilots_loop_append split: sum.splits)

section \<open>The distance at coincident points and along a meridian\<close>

lemma haversine_nm_same: "haversine_nm a0 a1 a0 a1 = 0"
  by (simp add: haversine_nm_def sqr_def atan2_def)

lemma NMDistance2LL_same: "NMDistance2LL (Finite a0, Finite a1) (Finite a0, Finite a1) = Finite 0"
  by (simp add: haversine_nm_same)

lemma atan2_sin_cos:
  assumes "0 \<le> h" and "h \<le> pi / 2"
  shows "atan2 (sin h) (cos h) = h"
proof (cases "h = pi / 2")
  case True
  show ?thesis unfolding True by (simp add: atan2_def)
next
  case False
  with assms have lt: "h < pi / 2" by simp
  with assms have pos: "0 < cos h"
    by (intro cos_gt_zero_pi) auto
  have "arctan (sin h / cos h) = arctan (tan h)"
    by (simp add: tan_def)
  also have "\<dots> = h"
    using assms lt by (intro arctan_tan) auto
  finally show ?thesis
    using pos by (simp add: atan2_def)
qed

lemma haversine_nm_meridian:
  assumes "a1 \<le> b1" and "b1 - a1 \<le> 180"
  shows "haversine_nm a0 a1 a0 b1 = 6371000 * rad (b1 - a1) * 0.000539957"
proof -
  define h where "h = (rad b1 - rad a1) / 2"
  have d: "rad b1 - rad a1 = (b1 - a1) / 180 * pi"
    by (simp add: rad_def algebra_simps diff_divide_distrib)
  have "(b1 - a1) / 180 * pi \<le> 1 * pi"
    using assms by (intro mult_right_mono) auto
  moreover have "0 \<le> (b1 - a1) / 180 * pi"
    using assms by simp
  ultimately have h: "0 \<le> h" "h \<le> pi / 2"
    by (simp_all add: h_def d)
  have s: "0 \<le> sin h"
    using h by (intro sin_ge_zero) auto
  have c: "0 \<le> cos h"
    using h by (intro cos_ge_zero) auto
  have "1 - sin h * sin h = cos h * cos h"
    using sin_cos_squared_add [of h] by (simp add: power2_eq_square algebra_simps)
  then have y: "sqrt (1 - sin h * sin h) = cos h"
    using c by simp
  have "haversine_nm a0 a1 a0 b1 = 6371000 * (2 * atan2 (sin h) (cos h)) * 0.000539957"
    using s by (simp add: haversine_nm_def sqr_def Let_def h_def y [unfolded h_def])
  also have "\<dots> = 6371000 * (2 * h) * 0.000539957"
    using h by (simp add: atan2_sin_cos)
  also have "2 * h = rad (b1 - a1)"
    by (simp add: h_def d) (simp add: rad_def)
  finally show ?thesis .
qed

lemma NMDistance2LL_meridian:
  assumes "a1 \<le> b1" and "b1 - a1 \<le> 180"
  shows "NMDistance2LL (Finite a0, Finite a1) (Finite a0, Finite b1) =
         Finite (6371000 * rad (b1 - a1) * 0.000539957)"
  using assms by (simp add: haversine_nm_meridian)

lemma one_degree_bounds: "30 \<le> 6371000 * rad 1 * 0.000539957" "6371000 * rad 1 * 0.000539957 < 300"
  using pi_ge_two pi_less_4 by (simp_all add: rad_def)

lemma twenty_degrees_far: "500 < 6371000 * rad 20 * 0.000539957"
  using pi_ge_two by (simp add: rad_def)

lemma half_degree_bounds: "3 \<le> 6371000 * rad 0.5 * 0.000539957" "6371000 * rad 0.5 * 0.000539957 < 300"
  using pi_ge_two pi_less_4 by (simp_all add: rad_def)

lemma hundredth_degree_near: "6371000 * rad 0.01 * 0.000539957 < 3"
  using pi_less_4 by (simp add: rad_def)

text \<open>
  The formula over the reals is symmetric and never negative: the haversine term lies
  between 0 and 1, so both square roots are taken of non-negative numbers. These are
  properties of the exact formula only; they say nothing about the rounded float64
  computation of the source.
\<close>

lemma sqr_sin_half_swap: "sqr (sin ((u - v) / 2)) = sqr (sin ((v - u) / 2))"
proof -
  have "(u - v) / 2 = - ((v - u) / 2)" by (simp add: field_simps)
  then have "sin ((u - v) / 2) = - sin ((v - u) / 2)" by (simp only: sin_minus)
  then show ?thesis by (simp add: sqr_def)
qed

lemma haversine_nm_sym: "haversine_nm a0 a1 b0 b1 = haversine_nm b0 b1 a0 a1"
proof -
  have "sqr (sin ((rad b1 - rad a1) / 2)) = sqr (sin ((rad a1 - rad b1) / 2))"
    and "sqr (sin ((rad b0 - rad a0) / 2)) = sqr (sin ((rad a0 - rad b0) / 2))"
    by (rule sqr_sin_half_swap)+
  then show ?thesis
    by (simp add: haversine_nm_def Let_def mult.commute)
qed

lemma cos_product:
  fixes u v :: real
  shows "cos (u - v) * cos (u + v) = (cos u)\<^sup>2 - (sin v)\<^sup>2"
proof -
  have "cos (u - v) * cos (u + v) =
        (cos u * cos v + sin u * sin v) * (cos u * cos v - sin u * sin v)"
    by (simp add: cos_diff cos_add)
  also have "\<dots> = (cos u)\<^sup>2 * (cos v)\<^sup>2 - (sin u)\<^sup>2 * (sin v)\<^sup>2"
    by (simp add: power2_eq_square algebra_simps)
  also have "\<dots> = (cos u)\<^sup>2 * (1 - (sin v)\<^sup>2) - (1 - (cos u)\<^sup>2) * (sin v)\<^sup>2"
    by (simp add: cos_squared_eq [of v] sin_squared_eq [of u])
  also have "\<dots> = (cos u)\<^sup>2 - (sin v)\<^sup>2"
    by (simp add: algebra_simps)
  finally show ?thesis .
qed

lemma haversine_term_bounds:
  fixes p q l :: real
  defines "x \<equiv> sqr (sin ((q - p) / 2)) + cos p * cos q * sqr (sin l)"
  shows "0 \<le> x" and "x \<le> 1"
proof -
  define u where "u = (p + q) / 2"
  define v where "v = (q - p) / 2"
  define s where "s = (sin l)\<^sup>2"
  have pq: "p = u - v" "q = u + v"
    by (simp_all add: u_def v_def field_simps)
  have s: "0 \<le> s" "s \<le> 1"
    by (simp_all add: s_def abs_square_le_1)
  have "cos p * cos q = cos (u - v) * cos (u + v)"
    using pq by simp
  then have "x = (sin v)\<^sup>2 + cos (u - v) * cos (u + v) * s"
    by (simp add: x_def sqr_def power2_eq_square s_def v_def)
  then have x: "x = (1 - s) * (sin v)\<^sup>2 + s * (cos u)\<^sup>2"
    by (simp add: cos_product algebra_simps)
  show "0 \<le> x"
    using s by (simp add: x)
  have "1 - x = 1 - ((1 - s) * (sin v)\<^sup>2 + s * (cos u)\<^sup>2)"
    by (simp only: x)
  also have "\<dots> = (1 - s) * (1 - (sin v)\<^sup>2) + s * (1 - (cos u)\<^sup>2)"
    by (simp add: algebra_simps)
  also have "\<dots> = (1 - s) * (cos v)\<^sup>2 + s * (sin u)\<^sup>2"
    by (simp add: cos_squared_eq [of v] sin_squared_eq [of u])
  also have "0 \<le> \<dots>"
    using s by simp
  finally show "x \<le> 1" by simp
qed

lemma atan2_nonneg: "0 \<le> y \<Longrightarrow> 0 \<le> x \<Longrightarrow> 0 \<le> atan2 y x"
  by (auto simp: atan2_def)

lemma haversine_nm_nonneg: "0 \<le> haversine_nm a0 a1 b0 b1"
proof -
  let ?x = "sqr (sin ((rad b1 - rad a1) / 2)) + cos (rad a1) * cos (rad b1) * sqr (sin ((rad b0 - rad a0) / 2))"
  have "0 \<le> ?x" "?x \<le> 1"
    by (rule haversine_term_bounds)+
  then have "0 \<le> atan2 (sqrt ?x) (sqrt (1 - ?x))"
    by (intro atan2_nonneg) simp_all
  then show ?thesis
    by (simp add: haversine_nm_def Let_def)
qed

lemma NMDistance2LL_sym: "NMDistance2LL a b = NMDistance2LL b a"
proof (cases "\<exists>a0 a1 b0 b1. a = (Finite a0, Finite a1) \<and> b = (Finite b0, Finite b1)")
  case True
  then show ?thesis using haversine_nm_sym by auto
next
  case False
  then have "NMDistance2LL a b = NaN" "NMDistance2LL b a = NaN"
    by (cases a; cases b; cases "fst a"; cases "snd a"; cases "fst b"; cases "snd b"; simp)+
  then show ?thesis by simp
qed

lemma NMDistance2LL_nonneg: "NMDistance2LL a b = NaN \<or> (\<exists>r. NMDistance2LL a b = Finite r \<and> 0 \<le> r)"
proof (cases "\<exists>a0 a1 b0 b1. a = (Finite a0, Finite a1) \<and> b = (Finite b0, Finite b1)")
  case True
  then show ?thesis using haversine_nm_nonneg by auto
next
  case False
  then have "NMDistance2LL a b = NaN"
    by (cases a; cases b; cases "fst a"; cases "snd a"; cases "fst b"; cases "snd b"; simp)
  then show ?thesis by simp
qed

section \<open>The loop body of CountTraffic\<close>

lemma major_empty_code:
  assumes "\<forall>m \<in> set airports. Airport.Name (Airport m) \<noteq> '''' \<and> (\<forall>sat \<in> set (Satellites m). Airport.Name sat \<noteq> '''')"
  shows "major airports '''' = None"
  using assms by (induction airports) (auto simp: sat_named_iff)

lemma pilot_body_Nil: "pilot_body nmd [] pilot t = Inl IndexOutOfRange"
  by (simp add: pilot_body_def)

lemma pilot_body_Cons:
  "pilot_body nmd (a0 # rest) pilot t =
     (if fgt (DistanceTo nmd (Airport a0) (Longitude pilot, Latitude pilot)) 500 then Inr t
      else Inr (arrival_stmt nmd (a0 # rest) pilot (Longitude pilot, Latitude pilot)
                  (departure_stmt nmd (a0 # rest) pilot (Longitude pilot, Latitude pilot) t)))"
  by (simp add: pilot_body_def Let_def)

lemma get0_incr_changed: "get0 (incr m k) k' \<noteq> get0 m k' \<Longrightarrow> k' = k"
  using get0_incr_other by blast

lemma ground_loop_cases:
  "ground_loop nmd airports loc t = t \<or> (\<exists>k. ground_loop nmd airports loc t = count_dep t k)"
  by (induction airports) auto

lemma departure_stmt_cases:
  "departure_stmt nmd airports pilot loc t = t \<or> (\<exists>k. departure_stmt nmd airports pilot loc t = count_dep t k)"
  using ground_loop_cases [of nmd airports loc t]
  by (auto simp: departure_stmt_def ground_stmt_def split: option.splits)

lemma arrival_stmt_cases:
  "arrival_stmt nmd airports pilot loc t = t \<or> (\<exists>k. arrival_stmt nmd airports pilot loc t = count_arr t k)"
  by (auto simp: arrival_stmt_def split: option.splits)

lemma count_departure_bounds:
  "count t \<le> count (departure_stmt nmd airports pilot loc t) \<and>
   count (departure_stmt nmd airports pilot loc t) \<le> count t + 1"
  using departure_stmt_cases [of nmd airports pilot loc t] by (auto simp: count_dep_effect)

lemma count_arrival_bounds:
  "count t \<le> count (arrival_stmt nmd airports pilot loc t) \<and>
   count (arrival_stmt nmd airports pilot loc t) \<le> count t + 1"
  using arrival_stmt_cases [of nmd airports pilot loc t] by (auto simp: count_arr_effect)

text \<open>
  Claim C4. An aircraft more than 500 nautical miles from the first major of a non-empty
  registry is skipped: the loop body leaves departures, arrivals and the total as they
  were, whatever its flight plan, groundspeed and position relative to the other
  airports, and the whole run gives the result it gives without that aircraft.
\<close>
theorem C4_global_cutoff:
  assumes "airports = a0 # rest"
    and "fgt (DistanceTo nmd (Airport a0) (Longitude pilot, Latitude pilot)) 500"
  shows "pilot_body nmd airports pilot t = Inr t \<and>
         CountTraffic nmd (state\<lparr>Pilots := before @ pilot # after\<rparr>) airports =
         CountTraffic nmd (state\<lparr>Pilots := before @ after\<rparr>) airports"
proof -
  have body: "pilot_body nmd airports pilot = Inr"
    using assms by (auto simp: pilot_body_Cons)
  then show ?thesis
    by (simp add: CountTraffic_def pilots_loop_skip)
qed

text \<open>
  Claim C10. In a registry whose major and satellite codes are all non-empty, an aircraft
  with empty departure and arrival codes and a groundspeed of 20 knots or more adds nothing
  to any count, wherever it is. The loop body returns the tally unchanged (on the empty
  registry it stops at \<^verbatim>\<open>airports[0]\<close> before any count is touched), and on a non-empty
  registry the whole run gives the result it gives without that aircraft.
\<close>
theorem C10_no_plan_moving:
  assumes "\<forall>m \<in> set airports. Airport.Name (Airport m) \<noteq> '''' \<and> (\<forall>sat \<in> set (Satellites m). Airport.Name sat \<noteq> '''')"
    and "Departure (FlightPlan pilot) = ''''"
    and "Arrival (FlightPlan pilot) = ''''"
    and "Groundspeed pilot \<ge> 20"
  shows "pilot_body nmd airports pilot t = (if airports = [] then Inl IndexOutOfRange else Inr t) \<and>
         (airports \<noteq> [] \<longrightarrow>
            CountTraffic nmd (state\<lparr>Pilots := before @ pilot # after\<rparr>) airports =
            CountTraffic nmd (state\<lparr>Pilots := before @ after\<rparr>) airports)"
proof -
  have none: "major airports '''' = None"
    using assms(1) by (rule major_empty_code)
  have body: "pilot_body nmd airports pilot t = (if airports = [] then Inl IndexOutOfRange else Inr t)" for t
    using assms(2-4) none
    by (cases airports)
      (simp_all add: pilot_body_Nil pilot_body_Cons departure_stmt_def arrival_stmt_def ground_stmt_def)
  have "airports \<noteq> [] \<Longrightarrow> pilot_body nmd airports pilot = Inr"
    using body by auto
  with body show ?thesis
    by (simp add: CountTraffic_def pilots_loop_skip)
qed

text \<open>
  Claim C2. For an aircraft within the 500 nautical mile cutoff whose filed departure code
  resolves to the owning major \<open>M\<close> and which is under 30 nautical miles from \<open>M\<close>'s own
  location, the departure statement is exactly one increment for \<open>M\<close>: the departure
  count read under \<open>M\<close>'s code rises by one, the departure count under every other code
  and all arrival counts stay as they were, and the total rises by one. The fallback loop
  is not run. The body then continues with the arrival statement, which leaves the
  departure counts alone and adds to the total only its own increment, so the total after
  the body is one or two above the total before.
\<close>
theorem C2_flight_plan_departure:
  assumes "airports = a0 # rest"
    and "\<not> fgt (DistanceTo nmd (Airport a0) (Longitude pilot, Latitude pilot)) 500"
    and "owning_major airports (Departure (FlightPlan pilot)) = Some M"
    and "flt (DistanceTo nmd (Airport M) (Longitude pilot, Latitude pilot)) 30"
  shows "departure_stmt nmd airports pilot (Longitude pilot, Latitude pilot) t =
           count_dep t (Airport.Name (Airport M)) \<and>
         pilot_body nmd airports pilot t =
           Inr (arrival_stmt nmd airports pilot (Longitude pilot, Latitude pilot)
                  (count_dep t (Airport.Name (Airport M)))) \<and>
         (\<exists>r. pilot_body nmd airports pilot t = Inr r \<and>
              dep r = incr (dep t) (Airport.Name (Airport M)) \<and>
              count r = count (arrival_stmt nmd airports pilot (Longitude pilot, Latitude pilot) t) + 1 \<and>
              get0 (dep r) (Airport.Name (Airport M)) = get0 (dep t) (Airport.Name (Airport M)) + 1 \<and>
              (\<forall>k. k \<noteq> Airport.Name (Airport M) \<longrightarrow> get0 (dep r) k = get0 (dep t) k) \<and>
              count t + 1 \<le> count r \<and> count r \<le> count t + 2) \<and>
         get0 (dep (departure_stmt nmd airports pilot (Longitude pilot, Latitude pilot) t))
              (Airport.Name (Airport M)) =
           get0 (dep t) (Airport.Name (Airport M)) + 1 \<and>
         arr (departure_stmt nmd airports pilot (Longitude pilot, Latitude pilot) t) = arr t \<and>
         count (departure_stmt nmd airports pilot (Longitude pilot, Latitude pilot) t) = count t + 1"
proof -
  let ?loc = "(Longitude pilot, Latitude pilot)"
  let ?k = "Airport.Name (Airport M)"
  let ?r = "arrival_stmt nmd airports pilot ?loc (count_dep t ?k)"
  have d: "departure_stmt nmd airports pilot ?loc t = count_dep t ?k"
    using assms(3,4) by (simp add: departure_stmt_def major_owning)
  have b: "pilot_body nmd airports pilot t = Inr ?r"
    using assms(1,2) d by (simp add: pilot_body_Cons)
  have c: "count ?r = count (arrival_stmt nmd airports pilot ?loc t) + 1"
    by (simp add: arrival_stmt_def count_arr_def count_dep_def split: option.splits)
  have e: "dep ?r = incr (dep t) ?k"
    by (simp add: dep_arrival_stmt count_dep_def)
  have g: "get0 (dep ?r) ?k = get0 (dep t) ?k + 1"
    by (simp add: e incr_def get0_def)
  have o: "\<forall>k. k \<noteq> ?k \<longrightarrow> get0 (dep ?r) k = get0 (dep t) k"
    by (simp add: e incr_def get0_def)
  have n: "count t + 1 \<le> count ?r \<and> count ?r \<le> count t + 2"
    using count_arrival_bounds [of t nmd airports pilot ?loc] by (simp add: c)
  have s: "get0 (dep (departure_stmt nmd airports pilot ?loc t)) ?k = get0 (dep t) ?k + 1"
    "arr (departure_stmt nmd airports pilot ?loc t) = arr t"
    "count (departure_stmt nmd airports pilot ?loc t) = count t + 1"
    by (simp_all add: d count_dep_def incr_def get0_def)
  have "\<exists>r. pilot_body nmd airports pilot t = Inr r \<and>
          dep r = incr (dep t) ?k \<and>
          count r = count (arrival_stmt nmd airports pilot ?loc t) + 1 \<and>
          get0 (dep r) ?k = get0 (dep t) ?k + 1 \<and>
          (\<forall>k. k \<noteq> ?k \<longrightarrow> get0 (dep r) k = get0 (dep t) k) \<and>
          count t + 1 \<le> count r \<and> count r \<le> count t + 2"
    using b c e g o n by blast
  with d b s show ?thesis by blast
qed

text \<open>
  Claim C3. For an aircraft within the cutoff: when its filed arrival code resolves to the
  owning major \<open>M\<close>, it is under 300 nautical miles from \<open>M\<close>'s own location and its
  groundspeed exceeds 20 knots, the arrival count read under \<open>M\<close>'s code rises by one,
  the arrival count under every other code stays as it was, and the total is one above the
  total left by the departure statement (so one or two above the total before the body);
  when its groundspeed is 20 knots or less, the arrival counts stay as they were.
\<close>
theorem C3_arrival:
  assumes "airports = a0 # rest"
    and "\<not> fgt (DistanceTo nmd (Airport a0) (Longitude pilot, Latitude pilot)) 500"
  shows "(owning_major airports (Arrival (FlightPlan pilot)) = Some M \<and>
            flt (DistanceTo nmd (Airport M) (Longitude pilot, Latitude pilot)) 300 \<and>
            Groundspeed pilot > 20 \<longrightarrow>
            pilot_body nmd airports pilot t =
              Inr (count_arr (departure_stmt nmd airports pilot (Longitude pilot, Latitude pilot) t)
                     (Airport.Name (Airport M))) \<and>
            (\<exists>r. pilot_body nmd airports pilot t = Inr r \<and>
                 get0 (arr r) (Airport.Name (Airport M)) = get0 (arr t) (Airport.Name (Airport M)) + 1 \<and>
                 (\<forall>k. k \<noteq> Airport.Name (Airport M) \<longrightarrow> get0 (arr r) k = get0 (arr t) k) \<and>
                 dep r = dep (departure_stmt nmd airports pilot (Longitude pilot, Latitude pilot) t) \<and>
                 count r = count (departure_stmt nmd airports pilot (Longitude pilot, Latitude pilot) t) + 1 \<and>
                 count t + 1 \<le> count r \<and> count r \<le> count t + 2)) \<and>
         (Groundspeed pilot \<le> 20 \<longrightarrow>
            pilot_body nmd airports pilot t =
              Inr (departure_stmt nmd airports pilot (Longitude pilot, Latitude pilot) t) \<and>
            arr (departure_stmt nmd airports pilot (Longitude pilot, Latitude pilot) t) = arr t)"
proof -
  let ?loc = "(Longitude pilot, Latitude pilot)"
  let ?d = "departure_stmt nmd airports pilot ?loc t"
  let ?k = "Airport.Name (Airport M)"
  have b: "pilot_body nmd airports pilot t = Inr (arrival_stmt nmd airports pilot ?loc ?d)"
    using assms by (simp add: pilot_body_Cons)
  have slow: "arrival_stmt nmd airports pilot ?loc s = s" if "Groundspeed pilot \<le> 20" for s
    using that by (simp add: arrival_stmt_def split: option.splits)
  have fast: "pilot_body nmd airports pilot t = Inr (count_arr ?d ?k) \<and>
          (\<exists>r. pilot_body nmd airports pilot t = Inr r \<and>
               get0 (arr r) ?k = get0 (arr t) ?k + 1 \<and>
               (\<forall>k. k \<noteq> ?k \<longrightarrow> get0 (arr r) k = get0 (arr t) k) \<and>
               dep r = dep ?d \<and> count r = count ?d + 1 \<and>
               count t + 1 \<le> count r \<and> count r \<le> count t + 2)"
    if "owning_major airports (Arrival (FlightPlan pilot)) = Some M"
      and "flt (DistanceTo nmd (Airport M) ?loc) 300" and "Groundspeed pilot > 20"
  proof -
    have "arrival_stmt nmd airports pilot ?loc ?d = count_arr ?d ?k"
      using that by (simp add: arrival_stmt_def major_owning)
    with b have r: "pilot_body nmd airports pilot t = Inr (count_arr ?d ?k)"
      by simp
    have g: "get0 (arr (count_arr ?d ?k)) ?k = get0 (arr t) ?k + 1"
      by (simp add: count_arr_def incr_def get0_def arr_departure_stmt)
    have o: "\<forall>k. k \<noteq> ?k \<longrightarrow> get0 (arr (count_arr ?d ?k)) k = get0 (arr t) k"
      by (simp add: count_arr_def incr_def get0_def arr_departure_stmt)
    have c: "dep (count_arr ?d ?k) = dep ?d" "count (count_arr ?d ?k) = count ?d + 1"
      by (simp_all add: count_arr_def)
    have n: "count t + 1 \<le> count (count_arr ?d ?k) \<and> count (count_arr ?d ?k) \<le> count t + 2"
      using count_departure_bounds [of t nmd airports pilot ?loc] by (simp add: c)
    from r g o c n show ?thesis by blast
  qed
  have second: "Groundspeed pilot \<le> 20 \<longrightarrow>
          pilot_body nmd airports pilot t = Inr ?d \<and> arr ?d = arr t"
    using b slow by (simp add: arr_departure_stmt)
  from fast second show ?thesis by blast
qed

text \<open>
  Claim C1. For an aircraft within the cutoff with an empty departure code, a groundspeed
  under 20 knots and no hit on the flight-plan path, the body does what the ordered scan of
  the specification says. On a hit, that is for the first candidate within 3 nautical
  miles (each major's own location before its satellites, majors in registry order), the
  departure count read under the code of the major owning that candidate rises by one, the
  departure count under every other code and all arrival counts stay as they were, and the
  total rises by one. On a miss, when no major and no satellite is within 3 nautical miles,
  the tally is returned unchanged. The hit is stated twice: through the scan, and directly
  for a registry split at the first major that is itself, or has a satellite, within
  range. (Below 20 knots the arrival statement adds nothing.)
\<close>
theorem C1_fallback_departure:
  assumes "airports = a0 # rest"
    and "\<not> fgt (DistanceTo nmd (Airport a0) (Longitude pilot, Latitude pilot)) 500"
    and "Departure (FlightPlan pilot) = ''''"
    and "Groundspeed pilot < 20"
    and "\<forall>M. owning_major airports (Departure (FlightPlan pilot)) = Some M \<longrightarrow>
           \<not> flt (DistanceTo nmd (Airport M) (Longitude pilot, Latitude pilot)) 30"
  shows "pilot_body nmd airports pilot t =
           Inr (case first_within_3 nmd airports (Longitude pilot, Latitude pilot) of
                  None \<Rightarrow> t
                | Some (m, l) \<Rightarrow> count_dep t (Airport.Name (Airport m))) \<and>
         (case first_within_3 nmd airports (Longitude pilot, Latitude pilot) of
            None \<Rightarrow> pilot_body nmd airports pilot t = Inr t
          | Some (m, l) \<Rightarrow>
              (\<exists>r. pilot_body nmd airports pilot t = Inr r \<and>
                   get0 (dep r) (Airport.Name (Airport m)) = get0 (dep t) (Airport.Name (Airport m)) + 1 \<and>
                   (\<forall>k. k \<noteq> Airport.Name (Airport m) \<longrightarrow> get0 (dep r) k = get0 (dep t) k) \<and>
                   arr r = arr t \<and> count r = count t + 1)) \<and>
         (airports = pre @ m # post \<and>
          (\<forall>m' \<in> set pre.
              \<not> flt (DistanceTo nmd (Airport m') (Longitude pilot, Latitude pilot)) 3 \<and>
              (\<forall>sat \<in> set (Satellites m'). \<not> flt (DistanceTo nmd sat (Longitude pilot, Latitude pilot)) 3)) \<and>
          (flt (DistanceTo nmd (Airport m) (Longitude pilot, Latitude pilot)) 3 \<or>
           (\<exists>sat \<in> set (Satellites m). flt (DistanceTo nmd sat (Longitude pilot, Latitude pilot)) 3)) \<longrightarrow>
          pilot_body nmd airports pilot t = Inr (count_dep t (Airport.Name (Airport m))) \<and>
          (\<exists>r. pilot_body nmd airports pilot t = Inr r \<and>
               get0 (dep r) (Airport.Name (Airport m)) = get0 (dep t) (Airport.Name (Airport m)) + 1 \<and>
               (\<forall>k. k \<noteq> Airport.Name (Airport m) \<longrightarrow> get0 (dep r) k = get0 (dep t) k) \<and>
               arr r = arr t \<and> count r = count t + 1)) \<and>
         ((\<forall>m' \<in> set airports.
              \<not> flt (DistanceTo nmd (Airport m') (Longitude pilot, Latitude pilot)) 3 \<and>
              (\<forall>sat \<in> set (Satellites m'). \<not> flt (DistanceTo nmd sat (Longitude pilot, Latitude pilot)) 3)) \<longrightarrow>
          pilot_body nmd airports pilot t = Inr t)"
proof -
  let ?loc = "(Longitude pilot, Latitude pilot)"
  have d: "departure_stmt nmd airports pilot ?loc t = ground_loop nmd airports ?loc t"
    using assms(3,4,5)
    by (auto simp: departure_stmt_def ground_stmt_def major_owning split: option.splits)
  have a: "arrival_stmt nmd airports pilot ?loc s = s" for s
    using assms(4) by (simp add: arrival_stmt_def split: option.splits)
  have b: "pilot_body nmd airports pilot t =
           Inr (arrival_stmt nmd airports pilot ?loc (departure_stmt nmd airports pilot ?loc t))"
    using assms(1,2) by (simp add: pilot_body_Cons)
  have g: "pilot_body nmd airports pilot t = Inr (ground_loop nmd airports ?loc t)"
    by (simp only: b d a)
  have scan: "pilot_body nmd airports pilot t =
              Inr (case first_within_3 nmd airports ?loc of
                     None \<Rightarrow> t
                   | Some (m, l) \<Rightarrow> count_dep t (Airport.Name (Airport m)))"
    by (simp only: g ground_loop_scan)
  have once: "\<exists>r. pilot_body nmd airports pilot t = Inr r \<and>
                get0 (dep r) k = get0 (dep t) k + 1 \<and>
                (\<forall>k'. k' \<noteq> k \<longrightarrow> get0 (dep r) k' = get0 (dep t) k') \<and>
                arr r = arr t \<and> count r = count t + 1"
    if "pilot_body nmd airports pilot t = Inr (count_dep t k)" for k
    using that by (simp add: count_dep_def incr_def get0_def)
  have counted:
    "case first_within_3 nmd airports ?loc of
       None \<Rightarrow> pilot_body nmd airports pilot t = Inr t
     | Some (m, l) \<Rightarrow>
         (\<exists>r. pilot_body nmd airports pilot t = Inr r \<and>
              get0 (dep r) (Airport.Name (Airport m)) = get0 (dep t) (Airport.Name (Airport m)) + 1 \<and>
              (\<forall>k. k \<noteq> Airport.Name (Airport m) \<longrightarrow> get0 (dep r) k = get0 (dep t) k) \<and>
              arr r = arr t \<and> count r = count t + 1)"
  proof (cases "first_within_3 nmd airports ?loc")
    case None
    with scan show ?thesis by simp
  next
    case (Some c)
    obtain m l where c: "c = (m, l)" by (cases c)
    with Some scan have "pilot_body nmd airports pilot t = Inr (count_dep t (Airport.Name (Airport m)))"
      by simp
    from once [OF this] Some c show ?thesis by simp
  qed
  have hit: "pilot_body nmd airports pilot t = Inr (count_dep t (Airport.Name (Airport m)))"
    if "airports = pre @ m # post"
      and "\<forall>m' \<in> set pre. \<not> flt (DistanceTo nmd (Airport m') ?loc) 3 \<and>
             (\<forall>sat \<in> set (Satellites m'). \<not> flt (DistanceTo nmd sat ?loc) 3)"
      and "flt (DistanceTo nmd (Airport m) ?loc) 3 \<or>
           (\<exists>sat \<in> set (Satellites m). flt (DistanceTo nmd sat ?loc) 3)"
  proof -
    have "ground_loop nmd airports ?loc t = count_dep t (Airport.Name (Airport m))"
      using ground_loop_hit [OF that(2,3), of post t] that(1) by simp
    then show ?thesis by (simp only: g)
  qed
  have miss: "pilot_body nmd airports pilot t = Inr t"
    if "\<forall>m' \<in> set airports. \<not> flt (DistanceTo nmd (Airport m') ?loc) 3 \<and>
          (\<forall>sat \<in> set (Satellites m'). \<not> flt (DistanceTo nmd sat ?loc) 3)"
    using ground_loop_miss [OF that, of t] by (simp add: g)
  from scan counted hit once miss show ?thesis by blast
qed

lemma pilot_body_cases:
  assumes "pilot_body nmd airports pilot t = Inr r"
  shows "r = t \<or> (\<exists>k. r = count_dep t k) \<or> (\<exists>k. r = count_arr t k) \<or>
         (\<exists>k k'. r = count_arr (count_dep t k) k')"
proof -
  let ?loc = "(Longitude pilot, Latitude pilot)"
  let ?d = "departure_stmt nmd airports pilot ?loc t"
  from assms have "r = t \<or> r = arrival_stmt nmd airports pilot ?loc ?d"
    by (cases airports) (auto simp: pilot_body_Nil pilot_body_Cons split: if_splits)
  moreover have "?d = t \<or> (\<exists>k. ?d = count_dep t k)"
    by (rule departure_stmt_cases)
  moreover have "arrival_stmt nmd airports pilot ?loc ?d = ?d \<or>
                 (\<exists>k. arrival_stmt nmd airports pilot ?loc ?d = count_arr ?d k)"
    by (rule arrival_stmt_cases)
  ultimately show ?thesis by metis
qed

lemma pilot_body_count_bounds:
  assumes "pilot_body nmd airports pilot t = Inr r"
  shows "count t \<le> count r \<and> count r \<le> count t + 2 \<and>
         get0 (dep t) k \<le> get0 (dep r) k \<and> get0 (dep r) k \<le> get0 (dep t) k + 1 \<and>
         get0 (arr t) k \<le> get0 (arr r) k \<and> get0 (arr r) k \<le> get0 (arr t) k + 1"
proof -
  have i: "get0 m k \<le> get0 (incr m k') k \<and> get0 (incr m k') k \<le> get0 m k + 1" for m k'
    by (cases "k = k'") (simp_all add: get0_incr_same get0_incr_other)
  from pilot_body_cases [OF assms] show ?thesis
    using i by (auto simp: count_dep_def count_arr_def)
qed

lemma pilots_loop_count_bounds:
  assumes "pilots_loop nmd airports pilots t = Inr r"
  shows "count t \<le> count r \<and> count r \<le> count t + 2 * int (length pilots) \<and>
         get0 (dep t) k \<le> get0 (dep r) k \<and> get0 (dep r) k \<le> get0 (dep t) k + int (length pilots) \<and>
         get0 (arr t) k \<le> get0 (arr r) k \<and> get0 (arr r) k \<le> get0 (arr t) k + int (length pilots)"
  using assms
proof (induction pilots arbitrary: t)
  case Nil
  then show ?case by simp
next
  case (Cons pilot pilots)
  then obtain t' where b: "pilot_body nmd airports pilot t = Inr t'"
    and l: "pilots_loop nmd airports pilots t' = Inr r"
    by (auto split: sum.splits)
  from pilot_body_count_bounds [OF b, of k] Cons.IH [OF l] show ?case
    by simp
qed

text \<open>
  Claim C7. One run of the loop body changes the departure counts by at most one increment
  of one key and the arrival counts by at most one increment of one key; the total grows
  by the number of increments made. No two keys change in the same direction.
\<close>
theorem C7_one_per_direction:
  assumes "pilot_body nmd airports pilot t = Inr r"
  shows "(dep r = dep t \<or> (\<exists>k. dep r = incr (dep t) k)) \<and>
         (arr r = arr t \<or> (\<exists>k. arr r = incr (arr t) k)) \<and>
         count r = count t + (if dep r = dep t then 0 else 1) + (if arr r = arr t then 0 else 1) \<and>
         (\<forall>k k'. get0 (dep r) k \<noteq> get0 (dep t) k \<and> get0 (dep r) k' \<noteq> get0 (dep t) k' \<longrightarrow> k = k') \<and>
         (\<forall>k k'. get0 (arr r) k \<noteq> get0 (arr t) k \<and> get0 (arr r) k' \<noteq> get0 (arr t) k' \<longrightarrow> k = k')"
proof -
  from pilot_body_cases [OF assms]
  consider "r = t" | k where "r = count_dep t k" | k where "r = count_arr t k"
    | k k' where "r = count_arr (count_dep t k) k'"
    by blast
  then show ?thesis
  proof cases
    case 1
    then show ?thesis by simp
  next
    case 2
    then show ?thesis
      by (auto simp: count_dep_def incr_neq dest: get0_incr_changed)
  next
    case 3
    then show ?thesis
      by (auto simp: count_arr_def incr_neq dest: get0_incr_changed)
  next
    case 4
    then show ?thesis
      by (auto simp: count_arr_def count_dep_def incr_neq dest: get0_incr_changed)
  qed
qed

lemma n90_names: "\<forall>m \<in> set n90. Airport.Name (Airport m) \<noteq> '''' \<and> (\<forall>sat \<in> set (Satellites m). Airport.Name sat \<noteq> '''')"
  by (simp add: n90_def)

lemma KAAA_to_north:
  assumes "0 \<le> lat" and "lat \<le> 180"
  shows "DistanceTo NMDistance2LL (Airport KAAA) (Finite 0, Finite lat) = Finite (6371000 * rad lat * 0.000539957)"
  using assms NMDistance2LL_meridian [of 0 lat 0] by (simp add: DistanceTo_def KAAA_def)

theorem C4_global_cutoff_witness:
  "fgt (DistanceTo NMDistance2LL (Airport KAAA) (Finite 0, Finite 20)) 500 \<and>
   pilot_body NMDistance2LL [KAAA] (pilot_at 0 20 0 ''KAAA'' ''KAAA'') no_tally = Inr no_tally \<and>
   CountTraffic NMDistance2LL (snapshot [pilot_at 0 20 0 ''KAAA'' ''KAAA'']) [KAAA] =
   CountTraffic NMDistance2LL (snapshot []) [KAAA]"
proof -
  have far: "fgt (DistanceTo NMDistance2LL (Airport KAAA)
               (Longitude (pilot_at 0 20 0 ''KAAA'' ''KAAA''), Latitude (pilot_at 0 20 0 ''KAAA'' ''KAAA''))) 500"
    using twenty_degrees_far by (simp add: pilot_at_def KAAA_to_north)
  from C4_global_cutoff [where t = no_tally and state = "snapshot []" and before = "[]" and after = "[]"
      and airports = "[KAAA]" and rest = "[]",
      OF refl far] far
  show ?thesis by (simp add: snapshot_def pilot_at_def)
qed

theorem C10_no_plan_moving_witness:
  "pilot_body NMDistance2LL n90 (pilot_at (- 73.780968) 40.641766 20 '''' '''') no_tally = Inr no_tally \<and>
   CountTraffic NMDistance2LL (snapshot [pilot_at (- 73.780968) 40.641766 20 '''' '''']) n90 =
   CountTraffic NMDistance2LL (snapshot []) n90"
proof -
  have ne: "n90 \<noteq> []" by (simp add: n90_def)
  from C10_no_plan_moving [where pilot = "pilot_at (- 73.780968) 40.641766 20 '''' ''''"
      and nmd = NMDistance2LL and t = no_tally and state = "snapshot []" and before = "[]" and after = "[]",
      OF n90_names] ne
  show ?thesis by (simp add: snapshot_def pilot_at_def)
qed


lemma pilot_at_sel:
  "Longitude (pilot_at lon lat gs d a) = Finite lon"
  "Latitude (pilot_at lon lat gs d a) = Finite lat"
  "Groundspeed (pilot_at lon lat gs d a) = gs"
  "Departure (FlightPlan (pilot_at lon lat gs d a)) = d"
  "Arrival (FlightPlan (pilot_at lon lat gs d a)) = a"
  by (simp_all add: pilot_at_def)

lemma KAAA_name: "Airport.Name (Airport KAAA) = ''KAAA''"
  by (simp add: KAAA_def)

lemma KAAA_is_owner: "owning_major [KAAA] ''KAAA'' = Some KAAA" "owning_major [KAAA] ''KBBB'' = Some KAAA"
  "owning_major [KAAA] '''' = None"
  by (simp_all add: owning_major_def KAAA_def)

theorem C2_flight_plan_departure_witness:
  "owning_major [KAAA] ''KBBB'' = Some KAAA \<and>
   flt (DistanceTo NMDistance2LL (Airport KAAA) (Finite 0, Finite 0.01)) 30 \<and>
   pilot_body NMDistance2LL [KAAA] (pilot_at 0 0.01 0 ''KBBB'' '''') no_tally =
     Inr (count_dep no_tally ''KAAA'') \<and>
   pilot_body NMDistance2LL [KAAA] (pilot_at 0 0.01 0 ''KBBB'' '''') no_tally =
     Inr \<lparr>dep = [''KAAA'' \<mapsto> 1], arr = Map.empty, count = 1\<rparr> \<and>
   get0 (dep no_tally) ''KAAA'' = 0 \<and> count no_tally = 0"
proof -
  let ?p = "pilot_at 0 0.01 0 ''KBBB'' ''''"
  have loc: "(Longitude ?p, Latitude ?p) = (Finite 0, Finite 0.01)" by (simp add: pilot_at_def)
  have near: "flt (DistanceTo NMDistance2LL (Airport KAAA) (Finite 0, Finite 0.01)) 30"
    and incut: "\<not> fgt (DistanceTo NMDistance2LL (Airport KAAA) (Finite 0, Finite 0.01)) 500"
    using hundredth_degree_near by (simp_all add: KAAA_to_north)
  have own: "owning_major [KAAA] (Departure (FlightPlan ?p)) = Some KAAA"
    by (simp add: pilot_at_def KAAA_is_owner)
  have arr: "arrival_stmt NMDistance2LL [KAAA] (pilot_at lon lat gs d '''') l s = s" for lon lat gs d l s
    by (simp add: arrival_stmt_def pilot_at_def major_owning KAAA_is_owner)
  from C2_flight_plan_departure [where pilot = ?p and nmd = NMDistance2LL and t = no_tally
      and airports = "[KAAA]" and rest = "[]",
      OF refl incut [folded loc] own near [folded loc], THEN conjunct2, THEN conjunct1]
  have body: "pilot_body NMDistance2LL [KAAA] ?p no_tally = Inr (count_dep no_tally ''KAAA'')"
    by (simp add: arr KAAA_name)
  have zero: "get0 (dep no_tally) ''KAAA'' = 0" "count no_tally = 0"
    by (simp_all add: no_tally_def get0_def)
  from body near zero show ?thesis
    by (simp add: KAAA_is_owner count_dep_def no_tally_def incr_def get0_def)
qed

theorem C3_arrival_witness:
  "owning_major [KAAA] ''KAAA'' = Some KAAA \<and>
   flt (DistanceTo NMDistance2LL (Airport KAAA) (Finite 0, Finite 0.5)) 300 \<and>
   pilot_body NMDistance2LL [KAAA] (pilot_at 0 0.5 150 '''' ''KAAA'') no_tally =
     Inr (count_arr no_tally ''KAAA'') \<and>
   pilot_body NMDistance2LL [KAAA] (pilot_at 0 0.5 150 '''' ''KAAA'') no_tally =
     Inr \<lparr>dep = Map.empty, arr = [''KAAA'' \<mapsto> 1], count = 1\<rparr> \<and>
   get0 (arr no_tally) ''KAAA'' = 0 \<and> count no_tally = 0 \<and>
   pilot_body NMDistance2LL [KAAA] (pilot_at 0 0.5 20 '''' ''KAAA'') no_tally = Inr no_tally"
proof -
  let ?fast = "pilot_at 0 0.5 150 '''' ''KAAA''"
  let ?slow = "pilot_at 0 0.5 20 '''' ''KAAA''"
  have near: "flt (DistanceTo NMDistance2LL (Airport KAAA) (Finite 0, Finite 0.5)) 300"
    and incut: "\<not> fgt (DistanceTo NMDistance2LL (Airport KAAA) (Finite 0, Finite 0.5)) 500"
    using half_degree_bounds by (simp_all add: KAAA_to_north)
  have dep: "departure_stmt NMDistance2LL [KAAA] (pilot_at lon lat gs '''' a) l s = s"
    if "20 \<le> gs" for lon lat gs a l s
    using that by (simp add: departure_stmt_def ground_stmt_def pilot_at_def major_owning KAAA_is_owner)
  have f: "\<not> fgt (DistanceTo NMDistance2LL (Airport KAAA) (Longitude ?fast, Latitude ?fast)) 500"
    and s: "\<not> fgt (DistanceTo NMDistance2LL (Airport KAAA) (Longitude ?slow, Latitude ?slow)) 500"
    using incut by (simp_all add: pilot_at_def)
  from C3_arrival [where pilot = ?fast and nmd = NMDistance2LL and t = no_tally and M = KAAA
      and airports = "[KAAA]" and rest = "[]", OF refl f, THEN conjunct1]
  have fast: "pilot_body NMDistance2LL [KAAA] ?fast no_tally = Inr (count_arr no_tally ''KAAA'')"
    using near by (simp add: dep KAAA_is_owner KAAA_name pilot_at_sel)
  from C3_arrival [where pilot = ?slow and nmd = NMDistance2LL and t = no_tally and M = KAAA
      and airports = "[KAAA]" and rest = "[]", OF refl s, THEN conjunct2]
  have slow: "pilot_body NMDistance2LL [KAAA] ?slow no_tally = Inr no_tally"
    by (simp add: dep pilot_at_sel)
  have zero: "get0 (arr no_tally) ''KAAA'' = 0" "count no_tally = 0"
    by (simp_all add: no_tally_def get0_def)
  from fast slow near zero show ?thesis
    by (simp add: KAAA_is_owner count_arr_def no_tally_def incr_def get0_def)
qed

lemma meridian_between:
  assumes "0 \<le> a" and "a + 1 \<le> b" and "b \<le> 2"
  shows "3 \<le> haversine_nm 0 a 0 b \<and> haversine_nm 0 a 0 b \<le> 500"
proof -
  define d where "d = b - a"
  have d: "1 \<le> d" "d \<le> 2"
    using assms by (simp_all add: d_def)
  have lo: "1 * 2 \<le> d * pi"
    using d pi_ge_two by (intro mult_mono) auto
  have hi: "d * pi \<le> 2 * 4"
    using d pi_less_4 by (intro mult_mono) auto
  have "haversine_nm 0 a 0 b = 6371000 * rad d * 0.000539957"
    unfolding d_def using assms by (intro haversine_nm_meridian) auto
  also have "\<dots> = 3440.066047 * (d * pi) / 180"
    by (simp add: rad_def)
  finally show ?thesis
    using lo hi by simp
qed

lemma KBBB_to_KCCC: "\<not> flt (NMDistance2LL (Finite 0, Finite 0.01) (Finite 0, Finite 1)) 3"
proof -
  have "(3::real) \<le> 6371000 * rad (1 - 0.01) * 0.000539957"
    using pi_ge_two by (simp add: rad_def)
  then show ?thesis
    by (simp add: haversine_nm_meridian)
qed

theorem C1_fallback_departure_witness:
  "first_within_3 NMDistance2LL [KAAA] (Finite 0, Finite 1) = Some (KAAA, (Finite 0, Finite 1)) \<and>
   pilot_body NMDistance2LL [KAAA] (pilot_at 0 1 0 '''' '''') no_tally = Inr (count_dep no_tally ''KAAA'') \<and>
   pilot_body NMDistance2LL [KAAA] (pilot_at 0 1 0 '''' '''') no_tally =
     Inr \<lparr>dep = [''KAAA'' \<mapsto> 1], arr = Map.empty, count = 1\<rparr> \<and>
   get0 (dep no_tally) ''KAAA'' = 0 \<and> count no_tally = 0 \<and>
   first_within_3 NMDistance2LL [KAAA] (Finite 0, Finite 2) = None \<and>
   pilot_body NMDistance2LL [KAAA] (pilot_at 0 2 0 '''' '''') no_tally = Inr no_tally"
proof -
  let ?p = "pilot_at 0 1 0 '''' ''''"
  let ?q = "pilot_at 0 2 0 '''' ''''"
  have loc: "(Longitude ?p, Latitude ?p) = (Finite 0, Finite 1)" by (simp add: pilot_at_def)
  have loq: "(Longitude ?q, Latitude ?q) = (Finite 0, Finite 2)" by (simp add: pilot_at_def)
  have incut: "\<not> fgt (DistanceTo NMDistance2LL (Airport KAAA) (Finite 0, Finite 1)) 500"
    and far: "\<not> flt (DistanceTo NMDistance2LL (Airport KAAA) (Finite 0, Finite 1)) 3"
    using one_degree_bounds by (simp_all add: KAAA_to_north)
  have scan: "first_within_3 NMDistance2LL [KAAA] (Finite 0, Finite 1) = Some (KAAA, (Finite 0, Finite 1))"
    using far KBBB_to_KCCC
    by (simp add: first_within_3_def candidates_def DistanceTo_def KAAA_def haversine_nm_same)
  have incut2: "\<not> fgt (DistanceTo NMDistance2LL (Airport KAAA) (Finite 0, Finite 2)) 500"
    using meridian_between [of 0 2] by (simp add: DistanceTo_def KAAA_def)
  have scan2: "first_within_3 NMDistance2LL [KAAA] (Finite 0, Finite 2) = None"
    using meridian_between [of 0 2] meridian_between [of "1 / 100" 2] meridian_between [of 1 2]
    by (simp add: first_within_3_def candidates_def KAAA_def)
  have nofp: "\<forall>M. owning_major [KAAA] (Departure (FlightPlan (pilot_at lon lat gs '''' a))) = Some M \<longrightarrow>
                \<not> flt (DistanceTo NMDistance2LL (Airport M)
                       (Longitude (pilot_at lon lat gs '''' a), Latitude (pilot_at lon lat gs '''' a))) 30"
    for lon lat gs a
    by (simp add: pilot_at_def KAAA_is_owner)
  from C1_fallback_departure [where pilot = ?p and nmd = NMDistance2LL and t = no_tally
      and airports = "[KAAA]" and rest = "[]" and pre = "[]" and m = KAAA and post = "[]",
      OF refl incut [folded loc] _ _ nofp, THEN conjunct1]
  have hit: "pilot_body NMDistance2LL [KAAA] ?p no_tally = Inr (count_dep no_tally ''KAAA'')"
    using scan by (simp add: pilot_at_sel KAAA_name)
  from C1_fallback_departure [where pilot = ?q and nmd = NMDistance2LL and t = no_tally
      and airports = "[KAAA]" and rest = "[]" and pre = "[]" and m = KAAA and post = "[]",
      OF refl incut2 [folded loq] _ _ nofp, THEN conjunct1]
  have miss: "pilot_body NMDistance2LL [KAAA] ?q no_tally = Inr no_tally"
    using scan2 by (simp add: pilot_at_sel)
  have zero: "get0 (dep no_tally) ''KAAA'' = 0" "count no_tally = 0"
    by (simp_all add: no_tally_def get0_def)
  from scan hit scan2 miss zero show ?thesis
    by (simp add: count_dep_def no_tally_def incr_def get0_def)
qed

lemma round_trip_at_KJFK:
  "pilot_body NMDistance2LL n90 (pilot_at (- 73.780968) 40.641766 150 ''KJFK'' ''KJFK'') no_tally =
     Inr (count_arr (count_dep no_tally ''KJFK'') ''KJFK'')"
  by (simp add: n90_def pilot_body_Cons pilot_at_def DistanceTo_def haversine_nm_same
      departure_stmt_def arrival_stmt_def)

theorem C7_one_per_direction_witness:
  "pilot_body NMDistance2LL n90 (pilot_at (- 73.780968) 40.641766 150 ''KJFK'' ''KJFK'') no_tally =
     Inr (count_arr (count_dep no_tally ''KJFK'') ''KJFK'') \<and>
   dep (count_arr (count_dep no_tally ''KJFK'') ''KJFK'') = incr (dep no_tally) ''KJFK'' \<and>
   arr (count_arr (count_dep no_tally ''KJFK'') ''KJFK'') = incr (arr no_tally) ''KJFK'' \<and>
   count (count_arr (count_dep no_tally ''KJFK'') ''KJFK'') = count no_tally + 2"
  using C7_one_per_direction [OF round_trip_at_KJFK] round_trip_at_KJFK
  by (simp add: count_arr_def count_dep_def)

section \<open>Totality, the controller filter and both directions\<close>

lemma pilots_loop_nonempty_registry:
  "airports \<noteq> [] \<Longrightarrow> \<exists>r. pilots_loop nmd airports pilots t = Inr r"
proof (induction pilots arbitrary: t)
  case Nil
  then show ?case by simp
next
  case (Cons pilot pilots)
  then obtain a0 rest where "airports = a0 # rest" by (cases airports) auto
  then have "\<exists>t'. pilot_body nmd airports pilot t = Inr t'"
    by (simp add: pilot_body_Cons)
  then obtain t' where "pilot_body nmd airports pilot t = Inr t'" ..
  with Cons show ?case by simp
qed

lemma pilots_loop_empty_registry:
  "pilots_loop nmd [] pilots t = (if pilots = [] then Inr t else Inl IndexOutOfRange)"
  by (cases pilots) (simp_all add: pilot_body_Nil)

lemma watched_iff: "watched positions ctrl \<longleftrightarrow> (\<exists>p \<in> set positions. Position.Name p = Controller.Callsign ctrl)"
  by (induction positions) auto

lemma online_loop_filter:
  "online_loop positions ctrls online = online @ filter (watched positions) ctrls"
  by (induction ctrls arbitrary: online) auto

lemma mset_sift: "mset (sift cmp x ys) = add_mset x (mset ys)"
  by (induction ys) auto

lemma set_sift: "set (sift cmp x ys) = insert x (set ys)"
  by (induction ys) auto

lemma mset_foldl_sift: "mset (foldl (\<lambda>placed x. sift cmp x placed) acc xs) = mset acc + mset xs"
  by (induction xs arbitrary: acc) (auto simp: mset_sift)

lemma mset_SortFunc: "mset (SortFunc xs cmp) = mset xs"
  by (simp add: SortFunc_def mset_foldl_sift)

lemma strings_Compare_neg: "strings_Compare a b < 0 \<longleftrightarrow> a < b"
  by (auto simp: strings_Compare_def)

lemma sift_descending:
  assumes "sorted_wrt (\<lambda>a b. key b \<le> key a) ys"
  shows "sorted_wrt (\<lambda>a b. key b \<le> key a) (sift (\<lambda>a b. strings_Compare (key a) (key b)) x ys)"
  using assms
proof (induction ys)
  case Nil
  then show ?case by simp
next
  case (Cons y ys)
  show ?case
  proof (cases "key x < key y")
    case True
    with Cons show ?thesis
      by (auto simp: strings_Compare_neg set_sift)
  next
    case False
    then have "key y \<le> key x" by simp
    with Cons.prems False show ?thesis
      by (auto simp: strings_Compare_neg)
  qed
qed

lemma foldl_sift_descending:
  assumes "sorted_wrt (\<lambda>a b. key b \<le> key a) acc"
  shows "sorted_wrt (\<lambda>a b. key b \<le> key a)
           (foldl (\<lambda>placed x. sift (\<lambda>a b. strings_Compare (key a) (key b)) x placed) acc xs)"
  using assms by (induction xs arbitrary: acc) (simp_all add: sift_descending)

lemma sorted_SortFunc:
  "sorted (map key (SortFunc xs (\<lambda>a b. strings_Compare (key a) (key b))))"
proof -
  have "sorted_wrt (\<lambda>a b. key b \<le> key a)
          (foldl (\<lambda>placed x. sift (\<lambda>a b. strings_Compare (key a) (key b)) x placed) [] xs)"
    by (rule foldl_sift_descending) simp
  then show ?thesis
    by (simp add: SortFunc_def sorted_map sorted_wrt_rev)
qed

text \<open>
  Claim C8. \<^verbatim>\<open>ActiveControllers\<close> returns exactly the sessions whose call sign equals the
  name of some watched position (equality of the byte strings: no case folding, no prefix
  match), each as often as it occurs in the snapshot, in ascending order of call sign under
  the byte-wise lexicographic order; the result is empty exactly when no session matches.
\<close>
theorem C8_filter_sorted:
  "mset (ActiveControllers state positions) =
     mset (filter (\<lambda>ctrl. \<exists>p \<in> set positions. Position.Name p = Controller.Callsign ctrl) (Controllers state)) \<and>
   sorted (map Controller.Callsign (ActiveControllers state positions)) \<and>
   ((ActiveControllers state positions = []) =
      (\<not> (\<exists>ctrl \<in> set (Controllers state). \<exists>p \<in> set positions. Position.Name p = Controller.Callsign ctrl)))"
proof -
  have f: "filter (watched positions) (Controllers state) =
           filter (\<lambda>ctrl. \<exists>p \<in> set positions. Position.Name p = Controller.Callsign ctrl) (Controllers state)"
    by (simp add: watched_iff [abs_def])
  have m: "mset (ActiveControllers state positions) = mset (filter (watched positions) (Controllers state))"
    by (simp add: ActiveControllers_def mset_SortFunc online_loop_filter)
  have s: "sorted (map Controller.Callsign (ActiveControllers state positions))"
    unfolding ActiveControllers_def by (rule sorted_SortFunc)
  have "(ActiveControllers state positions = []) = (filter (watched positions) (Controllers state) = [])"
    using m by (metis mset_zero_iff)
  also have "\<dots> = (\<not> (\<exists>ctrl \<in> set (Controllers state). \<exists>p \<in> set positions. Position.Name p = Controller.Callsign ctrl))"
    by (auto simp: filter_empty_conv watched_iff)
  finally show ?thesis
    using m s f by simp
qed

text \<open>
  Claim C6, amended. \<^verbatim>\<open>CountTraffic\<close> returns a result exactly when the registry is non-empty
  or the snapshot has no aircraft; with an empty registry and at least one aircraft it
  panics at \<^verbatim>\<open>airports[0]\<close>. Coordinates and groundspeeds never make it fail: the statement
  holds for every distance function. \<^verbatim>\<open>ActiveControllers\<close> has no index expression and no
  failing operation; it returns a list no longer than the list of sessions.
\<close>
theorem C6_total_on_nonempty_registry:
  "((\<exists>r. CountTraffic nmd state airports = Inr r) = (Pilots state = [] \<or> airports \<noteq> [])) \<and>
   ((CountTraffic nmd state airports = Inl IndexOutOfRange) = (Pilots state \<noteq> [] \<and> airports = [])) \<and>
   length (ActiveControllers state positions) \<le> length (Controllers state)"
proof -
  have len: "length (ActiveControllers state positions) \<le> length (Controllers state)"
  proof -
    have "mset (ActiveControllers state positions) =
          mset (filter (watched positions) (Controllers state))"
      by (simp add: ActiveControllers_def mset_SortFunc online_loop_filter)
    then have "length (ActiveControllers state positions) =
               length (filter (watched positions) (Controllers state))"
      by (rule mset_eq_length)
    then show ?thesis by simp
  qed
  show ?thesis
  proof (cases "airports = []")
    case True
    then show ?thesis
      using len by (simp add: CountTraffic_def pilots_loop_empty_registry)
  next
    case False
    then obtain r where "pilots_loop nmd airports (Pilots state) no_tally = Inr r"
      using pilots_loop_nonempty_registry by blast
    with False len show ?thesis
      by (simp add: CountTraffic_def no_tally_def)
  qed
qed

lemma CountTraffic_single:
  "CountTraffic nmd (snapshot [pilot]) airports =
     (case pilot_body nmd airports pilot no_tally of
        Inl e \<Rightarrow> Inl e
      | Inr t \<Rightarrow> Inr (dep t, arr t, count t))"
  by (simp add: CountTraffic_def snapshot_def no_tally_def split: sum.splits)

text \<open>
  Claim C6 as stated fails: on the empty registry and a snapshot of one aircraft the run
  ends in the index panic.
\<close>
theorem C6_empty_registry_panics:
  "CountTraffic NMDistance2LL (snapshot [pilot_at 0 0 0 '''' '''']) [] = Inl IndexOutOfRange"
  by (simp add: CountTraffic_single pilot_body_Nil)

text \<open>
  Claim C5 as stated fails: an aircraft at KJFK moving at 150 knots whose flight plan
  departs from and arrives at KJFK is counted once as a departure of KJFK and once as an
  arrival of KJFK in the same pass over the registry of \<^verbatim>\<open>main\<close>. The two points
  coincide, so the distance is 0 in the arithmetic of the source as well.
\<close>
theorem C5_round_trip_counted_twice:
  "CountTraffic NMDistance2LL (snapshot [KJFK_round_trip]) n90 =
     Inr ([''KJFK'' \<mapsto> 1], [''KJFK'' \<mapsto> 1], 2)"
  unfolding KJFK_round_trip_def CountTraffic_single round_trip_at_KJFK
  by (simp add: no_tally_def count_arr_def count_dep_def incr_def get0_def)


lemma arrival_stmt_tallied:
  "(get0 (arr (arrival_stmt nmd airports pilot loc t)) k = get0 (arr t) k + 1) =
     (\<exists>A. owning_major airports (Arrival (FlightPlan pilot)) = Some A \<and>
          Airport.Name (Airport A) = k \<and>
          flt (DistanceTo nmd (Airport A) loc) 300 \<and> Groundspeed pilot > 20)"
proof (cases "owning_major airports (Arrival (FlightPlan pilot))")
  case None
  then show ?thesis by (simp add: arrival_stmt_def major_owning)
next
  case (Some A)
  show ?thesis
  proof (cases "Airport.Name (Airport A) = k")
    case True
    with Some show ?thesis
      by (simp add: arrival_stmt_def major_owning count_arr_def get0_incr_same)
  next
    case False
    then have "get0 (incr m (Airport.Name (Airport A))) k = get0 m k" for m
      by (simp add: get0_incr_other)
    with Some False show ?thesis
      by (simp add: arrival_stmt_def major_owning count_arr_def)
  qed
qed

lemma departure_stmt_tallied_moving:
  assumes "Groundspeed pilot > 20"
  shows "(get0 (dep (departure_stmt nmd airports pilot loc t)) k = get0 (dep t) k + 1) =
     (\<exists>D. owning_major airports (Departure (FlightPlan pilot)) = Some D \<and>
          Airport.Name (Airport D) = k \<and>
          flt (DistanceTo nmd (Airport D) loc) 30)"
proof (cases "owning_major airports (Departure (FlightPlan pilot))")
  case None
  with assms show ?thesis by (simp add: departure_stmt_def ground_stmt_def major_owning)
next
  case (Some D)
  show ?thesis
  proof (cases "Airport.Name (Airport D) = k")
    case True
    with Some assms show ?thesis
      by (simp add: departure_stmt_def ground_stmt_def major_owning count_dep_def get0_incr_same)
  next
    case False
    then have "get0 (incr m (Airport.Name (Airport D))) k = get0 m k" for m
      by (simp add: get0_incr_other)
    with Some False assms show ?thesis
      by (simp add: departure_stmt_def ground_stmt_def major_owning count_dep_def)
  qed
qed

text \<open>
  Claim C5, amended. In one pass an aircraft is tallied both as a departure and as an
  arrival under the same major code \<open>k\<close> exactly when it is within the cutoff, its
  groundspeed exceeds 20 knots, its filed departure code resolves to a major with code \<open>k\<close>
  less than 30 nautical miles away, and its filed arrival code resolves to a major with
  code \<open>k\<close> less than 300 nautical miles away. In particular an aircraft counted by the
  fallback path, or moving at 20 knots or less, is never tallied in both directions.
\<close>
theorem C5_both_directions:
  assumes "airports = a0 # rest"
    and "pilot_body nmd airports pilot t = Inr r"
  shows "(get0 (dep r) k = get0 (dep t) k + 1 \<and> get0 (arr r) k = get0 (arr t) k + 1) =
         (\<not> fgt (DistanceTo nmd (Airport a0) (Longitude pilot, Latitude pilot)) 500 \<and>
          Groundspeed pilot > 20 \<and>
          (\<exists>D. owning_major airports (Departure (FlightPlan pilot)) = Some D \<and>
               Airport.Name (Airport D) = k \<and>
               flt (DistanceTo nmd (Airport D) (Longitude pilot, Latitude pilot)) 30) \<and>
          (\<exists>A. owning_major airports (Arrival (FlightPlan pilot)) = Some A \<and>
               Airport.Name (Airport A) = k \<and>
               flt (DistanceTo nmd (Airport A) (Longitude pilot, Latitude pilot)) 300))"
proof (cases "fgt (DistanceTo nmd (Airport a0) (Longitude pilot, Latitude pilot)) 500")
  case True
  with assms have "r = t" by (simp add: pilot_body_Cons)
  with True show ?thesis by simp
next
  case False
  let ?loc = "(Longitude pilot, Latitude pilot)"
  let ?d = "departure_stmt nmd airports pilot ?loc t"
  from False assms have r: "r = arrival_stmt nmd airports pilot ?loc ?d"
    by (simp add: pilot_body_Cons)
  have a: "(get0 (arr r) k = get0 (arr t) k + 1) =
           (\<exists>A. owning_major airports (Arrival (FlightPlan pilot)) = Some A \<and>
                Airport.Name (Airport A) = k \<and>
                flt (DistanceTo nmd (Airport A) ?loc) 300 \<and> Groundspeed pilot > 20)"
    using arrival_stmt_tallied [of nmd airports pilot ?loc ?d k]
    by (simp add: r arr_departure_stmt)
  have d: "dep r = dep ?d"
    by (simp add: r dep_arrival_stmt)
  show ?thesis
  proof (cases "Groundspeed pilot > 20")
    case True
    from departure_stmt_tallied_moving [OF True, of nmd airports ?loc t k] a d False True
    show ?thesis by auto
  next
    case slow: False
    with a have "get0 (arr r) k \<noteq> get0 (arr t) k + 1" by simp
    with slow show ?thesis by simp
  qed
qed

lemma round_trip_owner: "owning_major n90 ''KJFK'' = Some (hd n90)" "Airport.Name (Airport (hd n90)) = ''KJFK''"
  "DistanceTo NMDistance2LL (Airport (hd n90)) (Finite (- 73.780968), Finite 40.641766) = Finite 0"
  by (simp_all add: owning_major_def n90_def DistanceTo_def haversine_nm_same)

theorem C5_both_directions_witness:
  "pilot_body NMDistance2LL n90 (pilot_at (- 73.780968) 40.641766 150 ''KJFK'' ''KJFK'') no_tally =
     Inr (count_arr (count_dep no_tally ''KJFK'') ''KJFK'') \<and>
   get0 (dep (count_arr (count_dep no_tally ''KJFK'') ''KJFK'')) ''KJFK'' = get0 (dep no_tally) ''KJFK'' + 1 \<and>
   get0 (arr (count_arr (count_dep no_tally ''KJFK'') ''KJFK'')) ''KJFK'' = get0 (arr no_tally) ''KJFK'' + 1 \<and>
   owning_major n90 ''KJFK'' = Some (hd n90) \<and>
   flt (DistanceTo NMDistance2LL (Airport (hd n90)) (Finite (- 73.780968), Finite 40.641766)) 30"
proof -
  have n: "n90 = hd n90 # tl n90" by (simp add: n90_def)
  from C5_both_directions [OF n round_trip_at_KJFK, of "''KJFK''"] round_trip_at_KJFK
  show ?thesis
    by (simp add: round_trip_owner pilot_at_sel count_arr_def count_dep_def get0_incr_same)
qed

theorem C6_total_on_nonempty_registry_witness:
  "(\<exists>r. CountTraffic NMDistance2LL (snapshot [pilot_at (- 73.780968) 40.641766 150 ''KJFK'' ''KJFK'']) n90 = Inr r) \<and>
   n90 \<noteq> [] \<and>
   CountTraffic NMDistance2LL (snapshot [pilot_at (- 73.780968) 40.641766 150 ''KJFK'' ''KJFK'']) n90 \<noteq>
     Inl IndexOutOfRange"
  using C6_total_on_nonempty_registry
    [of NMDistance2LL "snapshot [pilot_at (- 73.780968) 40.641766 150 ''KJFK'' ''KJFK'']" n90]
  by (simp add: snapshot_def n90_def)

theorem C8_filter_sorted_witness:
  "ActiveControllers
     \<lparr>Pilots = [],
      Controllers = [controller 1 ''NY_KL_CTR'', controller 2 ''jfk_twr'', controller 3 ''JFK_TWR'',
                     controller 4 ''JFK_T'', controller 5 ''EWR_GND'']\<rparr>
     [position ''JFK_TWR'', position ''NY_KL_CTR'', position ''LGA_TWR''] =
     [controller 3 ''JFK_TWR'', controller 1 ''NY_KL_CTR''] \<and>
   sorted [''JFK_TWR'', ''NY_KL_CTR'']"
proof -
  let ?st = "\<lparr>Pilots = [],
      Controllers = [controller 1 ''NY_KL_CTR'', controller 2 ''jfk_twr'', controller 3 ''JFK_TWR'',
                     controller 4 ''JFK_T'', controller 5 ''EWR_GND'']\<rparr>"
  let ?ps = "[position ''JFK_TWR'', position ''NY_KL_CTR'', position ''LGA_TWR'']"
  have e: "ActiveControllers ?st ?ps = [controller 3 ''JFK_TWR'', controller 1 ''NY_KL_CTR'']"
    by (simp add: ActiveControllers_def SortFunc_def strings_Compare_def controller_def position_def)
  from C8_filter_sorted [of ?st ?ps] show ?thesis
    unfolding e by (simp add: controller_def)
qed

section \<open>The run as a whole\<close>

text \<open>
  The counters stay within the number of aircraft, far below the range of a 64-bit
  integer. The last lemma runs the end-to-end scenario of the specification.
\<close>

lemma CountTraffic_count_bounds:
  assumes "CountTraffic nmd state airports = Inr (d, a, c)"
  shows "0 \<le> c \<and> c \<le> 2 * int (length (Pilots state)) \<and>
         0 \<le> get0 d k \<and> get0 d k \<le> int (length (Pilots state)) \<and>
         0 \<le> get0 a k \<and> get0 a k \<le> int (length (Pilots state))"
proof -
  from assms obtain r where
    r: "pilots_loop nmd airports (Pilots state) \<lparr>dep = Map.empty, arr = Map.empty, count = 0\<rparr> = Inr r"
    and "d = dep r" "a = arr r" "c = count r"
    by (auto simp: CountTraffic_def split: sum.splits)
  with pilots_loop_count_bounds [OF r, of k] show ?thesis
    by (simp add: get0_def)
qed

lemma end_to_end_scenario:
  "CountTraffic NMDistance2LL
     (snapshot [pilot_at 0 0 0 ''KAAA'' '''', pilot_at 0 0.5 150 '''' ''KAAA'']) [KAAA] =
   Inr ([''KAAA'' \<mapsto> 1], [''KAAA'' \<mapsto> 1], 2)"
proof -
  have first: "pilot_body NMDistance2LL [KAAA] (pilot_at 0 0 0 ''KAAA'' '''') t = Inr (count_dep t ''KAAA'')" for t
    by (simp add: pilot_body_Cons pilot_at_sel KAAA_to_north rad_def departure_stmt_def arrival_stmt_def
        major_owning KAAA_is_owner KAAA_name)
  have second: "pilot_body NMDistance2LL [KAAA] (pilot_at 0 (1 / 2) 150 '''' ''KAAA'') t = Inr (count_arr t ''KAAA'')" for t
    using half_degree_bounds
    by (simp add: pilot_body_Cons pilot_at_sel KAAA_to_north departure_stmt_def ground_stmt_def
        arrival_stmt_def major_owning KAAA_is_owner KAAA_name)
  show ?thesis
    by (simp add: CountTraffic_def snapshot_def first second count_dep_def count_arr_def incr_def get0_def)
qed

end
